theory Spec2Isabelle
  imports Main "HOL-Library.Word"
begin

section \<open>State vocabulary (power_state.go, lines 12 to 54)\<close>

text \<open>
  \<^verbatim>\<open>type PowerState int\<close> and \<^verbatim>\<open>type PowerControl int\<close> are plain Go integers, so a value
  outside the declared constants is a well-formed value of the type. They are modelled as
  \<open>int\<close>: the only arithmetic on them is \<open>p - 1\<close> as an array index, and a machine integer
  that wraps at the smallest value lands on the largest one, which is out of range of a
  table with three entries exactly as the negative number is.
\<close>

type_synonym PowerState = int

definition P_ON :: PowerState where "P_ON = 1"
definition P_OFF :: PowerState where "P_OFF = 2"
definition P_UKNOWN :: PowerState where "P_UKNOWN = 3"

definition powerstates :: "string list" where
  "powerstates = [''On'', ''Off'', ''UNKNOWN'']"

datatype panic = IndexOutOfRange

text \<open>Indexing a Go array: the run-time bounds check panics outside \<open>0 \<le> i < len\<close>.\<close>

definition index_array :: "string list \<Rightarrow> int \<Rightarrow> panic + string" where
  "index_array xs i =
     (if 0 \<le> i \<and> i < int (length xs) then Inr (xs ! nat i) else Inl IndexOutOfRange)"

definition PowerState_String :: "PowerState \<Rightarrow> panic + string" where
  "PowerState_String p = index_array powerstates (p - 1)"

text \<open>
  \<^verbatim>\<open>strings.ToUpper\<close> belongs to the Go standard library. It is modelled on the bytes of the
  string: the ASCII letters \<open>a\<close> to \<open>z\<close> move to \<open>A\<close> to \<open>Z\<close>, every other byte stays. The
  library function also maps letters beyond ASCII; none of those maps to an ASCII letter
  occurring in the tables of this file, so the comparisons below agree with it.
\<close>

definition ToUpper_char :: "char \<Rightarrow> char" where
  "ToUpper_char c =
     (let n = of_char c :: nat in if 97 \<le> n \<and> n \<le> 122 then char_of (n - 32) else c)"

definition strings_ToUpper :: "string \<Rightarrow> string" where
  "strings_ToUpper s = map ToUpper_char s"

definition PowerState_Equal :: "PowerState \<Rightarrow> string \<Rightarrow> panic + bool" where
  "PowerState_Equal p s =
     (case PowerState_String p of
        Inl e \<Rightarrow> Inl e
      | Inr n \<Rightarrow> Inr (strings_ToUpper s = strings_ToUpper n))"

type_synonym PowerControl = int

definition P_COLDBOOT :: PowerControl where "P_COLDBOOT = 1"
definition P_MOMPRESS :: PowerControl where "P_MOMPRESS = 2"
definition P_RESET :: PowerControl where "P_RESET = 3"

definition powercontrols :: "string list" where
  "powercontrols = [''ColdBoot'', ''MomentaryPress'', ''Reset'']"

definition PowerControl_String :: "PowerControl \<Rightarrow> panic + string" where
  "PowerControl_String pc = index_array powercontrols (pc - 1)"

section \<open>Data of the orchestrator\<close>

text \<open>
  \<^verbatim>\<open>ServerHardware\<close> and \<^verbatim>\<open>Task\<close> are declared in other files of package \<^verbatim>\<open>ov\<close>; the records
  hold the fields that power_state.go reads or writes. The client handle of a hardware unit
  is the connection to the remote system, whose behaviour is the parameter \<open>env\<close> below.
  The pointers \<^verbatim>\<open>Blade\<close> and \<^verbatim>\<open>CurrentTask\<close> are taken to be non-nil, as \<^verbatim>\<open>NewPowerTask\<close> and
  \<^verbatim>\<open>ResetTask\<close> leave them.
\<close>

record ServerHardware =
  URI :: string
  Name :: string
  SerialNumber :: string
  PowerState :: string

record Task =
  URI :: string
  Name :: string
  Owner :: string
  TaskState :: string
  TaskStatus :: string
  ComputedPercentComplete :: int

record PowerTask =
  Blade :: ServerHardware
  State :: PowerState
  TaskStatus :: bool
  CurrentTask :: Task
  Timeout :: int
  WaitTime :: "64 word"

record PowerRequest =
  PowerState :: string
  PowerControl :: string

text \<open>The zero value \<^verbatim>\<open>&Task{ URI: "", Name: "", Owner: ""}\<close>.\<close>

definition empty_Task :: Task where
  "empty_Task =
     \<lparr>Task.URI = [], Name = [], Owner = [], TaskState = [], TaskStatus = [],
      ComputedPercentComplete = 0\<rparr>"

definition NewPowerTask :: "ServerHardware \<Rightarrow> PowerTask" where
  "NewPowerTask b =
     \<lparr>Blade = b, State = P_UKNOWN, TaskStatus = False, CurrentTask = empty_Task,
      Timeout = 36, WaitTime = 10\<rparr>"

definition ResetTask :: "'a PowerTask_scheme \<Rightarrow> 'a PowerTask_scheme" where
  "ResetTask pt = pt\<lparr>State := P_UKNOWN, PowerTask.TaskStatus := False, CurrentTask := empty_Task\<rparr>"

section \<open>Remote system, log and clock as an explicit trace\<close>

datatype Method = GET | PUT

datatype level = Debugf | Infof | Warnf | Errorf

text \<open>
  Everything the orchestrator does to the outside is appended to a trace: a hardware lookup,
  a REST call with its method, address and body, a sleep with its duration, and a log line
  with its level and format string. (Formatting the arguments of a log line cannot fail:
  package \<^verbatim>\<open>fmt\<close> recovers from a panicking \<^verbatim>\<open>String\<close> method.)
\<close>

datatype event =
    Lookup string
  | Call Method string "PowerRequest option"
  | Sleep "64 word"
  | Log level string

datatype error = errors_New string

text \<open>
  The collaborators outside this file: the answers of the remote system may depend on
  everything that happened before (the trace), the JSON decoder gets the raw data and the
  task record it decodes into, and gives back the record as it left it and its error.
\<close>

record env =
  GetServerHardware :: "event list \<Rightarrow> string \<Rightarrow> error + ServerHardware"
  RestAPICall :: "event list \<Rightarrow> Method \<Rightarrow> string \<Rightarrow> PowerRequest option \<Rightarrow> error + string"
  json_Unmarshal :: "string \<Rightarrow> Task \<Rightarrow> error option \<times> Task"

record machine = PowerTask +
  trace :: "event list"

definition emit :: "event \<Rightarrow> machine \<Rightarrow> machine" where
  "emit e m = m\<lparr>trace := trace m @ [e]\<rparr>"

definition logf :: "level \<Rightarrow> string \<Rightarrow> machine \<Rightarrow> machine" where
  "logf l fmt m = emit (Log l fmt) m"

datatype 'a result = Panic panic | Return 'a

section \<open>Operations of the orchestrator (lines 83 to 168)\<close>

definition GetCurrentPowerState :: "env \<Rightarrow> machine \<Rightarrow> error option result \<times> machine" where
  "GetCurrentPowerState env m =
     (if ServerHardware.URI (Blade m) = [] then
        (Return (Some (errors_New ''Can't get power on blade without hardware'')),
         m\<lparr>State := P_UKNOWN\<rparr>)
      else
        let m1 = emit (Lookup (ServerHardware.URI (Blade m))) m in
        case GetServerHardware env (trace m) (ServerHardware.URI (Blade m)) of
          Inl err \<Rightarrow> (Return (Some err), m1)
        | Inr b \<Rightarrow>
            let m2 = logf Debugf ''GetCurrentPowerState() blade -> %+v'' m1 in
            (case PowerState_Equal P_OFF (ServerHardware.PowerState b) of
               Inl p \<Rightarrow> (Panic p, m2)
             | Inr off \<Rightarrow>
                 if off then (Return None, m2\<lparr>State := P_OFF, Blade := b\<rparr>)
                 else
                   (case PowerState_Equal P_ON (ServerHardware.PowerState b) of
                      Inl p \<Rightarrow> (Panic p, m2)
                    | Inr on \<Rightarrow>
                        if on then (Return None, m2\<lparr>State := P_ON, Blade := b\<rparr>)
                        else
                          (Return None,
                           (logf Warnf ''Un-known power state detected %s, for %s.'' m2)
                             \<lparr>State := P_UKNOWN, Blade := b\<rparr>))))"

text \<open>
  \<^verbatim>\<open>SubmitPowerState\<close> has no result in Go; the model returns \<open>Return ()\<close> when it returns
  and \<open>Panic\<close> when the index expression of \<^verbatim>\<open>s.String()\<close> on line 122 panics.
\<close>

definition SubmitPowerState :: "env \<Rightarrow> PowerState \<Rightarrow> machine \<Rightarrow> unit result \<times> machine" where
  "SubmitPowerState env s m =
     (case GetCurrentPowerState env m of
        (Panic p, m1) \<Rightarrow> (Panic p, m1)
      | (Return (Some err), m1) \<Rightarrow>
          (Return (), logf Errorf ''Error getting current power state: %s'' m1)
      | (Return None, m1) \<Rightarrow>
          if s \<noteq> State m1 then
            let m2 = logf Infof ''Powering %s server %s for %s.'' m1 in
            (case PowerState_String s of
               Inl p \<Rightarrow> (Panic p, m2)
             | Inr ps \<Rightarrow>
                 (case PowerControl_String P_MOMPRESS of
                    Inl p \<Rightarrow> (Panic p, m2)
                  | Inr pc \<Rightarrow>
                      let body = \<lparr>PowerRequest.PowerState = ps, PowerControl = pc\<rparr>;
                          uri = concat [ServerHardware.URI (Blade m2), ''/powerState''];
                          m3 = logf Debugf (''REST : %s '' @ [CHR 0x0A] @ '' %+v'' @ [CHR 0x0A]) m2;
                          m4 = logf Debugf ''pt -> %+v'' m3;
                          m5 = emit (Call PUT uri (Some body)) m4
                      in
                        (case RestAPICall env (trace m4) PUT uri (Some body) of
                           Inl err \<Rightarrow>
                             (Return (),
                              logf Errorf ''Error with power state request: %s''
                                (m5\<lparr>PowerTask.TaskStatus := True\<rparr>))
                         | Inr data \<Rightarrow>
                             let m6 = logf Debugf ''SubmitPowerState %s'' m5 in
                             (case json_Unmarshal env data (CurrentTask m6) of
                                (Some err, t) \<Rightarrow>
                                  (Return (),
                                   logf Errorf ''Error with power state un-marshal: %s''
                                     (m6\<lparr>CurrentTask := t, PowerTask.TaskStatus := True\<rparr>))
                              | (None, t) \<Rightarrow> (Return (), m6\<lparr>CurrentTask := t\<rparr>)))))
          else
            (Return (),
             (logf Infof ''Desired Power State already set -> %s'' m1)
               \<lparr>PowerTask.TaskStatus := True\<rparr>))"

definition GetCurrentTaskStatus :: "env \<Rightarrow> machine \<Rightarrow> error option \<times> machine" where
  "GetCurrentTaskStatus env m =
     (let m1 = logf Debugf ''Working on getting current blade task status'' m;
          uri = Task.URI (CurrentTask m1)
      in
        if uri \<noteq> [] then
          let m2 = emit (Call GET uri None) m1 in
          (case RestAPICall env (trace m1) GET uri None of
             Inl err \<Rightarrow> (Some err, m2)
           | Inr data \<Rightarrow>
               let m3 = logf Debugf ''data: %s'' m2 in
               (case json_Unmarshal env data (CurrentTask m3) of
                  (Some err, t) \<Rightarrow> (Some err, m3\<lparr>CurrentTask := t\<rparr>)
                | (None, t) \<Rightarrow> (None, m3\<lparr>CurrentTask := t\<rparr>)))
        else (None, logf Debugf ''Unable to get current task, no URI found'' m1))"

section \<open>The executor (lines 170 to 199)\<close>

text \<open>
  Modelled from the spec: the constant \<^verbatim>\<open>T_COMPLETED\<close> and its method \<^verbatim>\<open>Equal\<close> are declared
  in another file of package \<^verbatim>\<open>ov\<close>. The spec describes the lifecycle state of a task as a
  free-form string compared case-insensitively against the marker \<^verbatim>\<open>Completed\<close>.
\<close>

definition T_COMPLETED_Equal :: "string \<Rightarrow> bool" where
  "T_COMPLETED_Equal s = (strings_ToUpper s = strings_ToUpper ''Completed'')"

text \<open>
  \<^verbatim>\<open>go pt.SubmitPowerState(s)\<close> runs concurrently with the polling loop on the same
  \<^verbatim>\<open>PowerTask\<close>. The goroutine is cut at its blocking call: the first part is lines 115 to
  127 (and the else branch, lines 141 to 144), the second part is the PUT with the handling
  of its answer, lines 128 to 140. Where it stands is a value of type \<open>goroutine\<close>.
\<close>

datatype goroutine = G_Start | G_Put string PowerRequest | G_Done | G_Panicked panic

definition submit_prepare :: "env \<Rightarrow> PowerState \<Rightarrow> machine \<Rightarrow> goroutine \<times> machine" where
  "submit_prepare env s m =
     (case GetCurrentPowerState env m of
        (Panic p, m1) \<Rightarrow> (G_Panicked p, m1)
      | (Return (Some err), m1) \<Rightarrow>
          (G_Done, logf Errorf ''Error getting current power state: %s'' m1)
      | (Return None, m1) \<Rightarrow>
          if s \<noteq> State m1 then
            let m2 = logf Infof ''Powering %s server %s for %s.'' m1 in
            (case PowerState_String s of
               Inl p \<Rightarrow> (G_Panicked p, m2)
             | Inr ps \<Rightarrow>
                 (case PowerControl_String P_MOMPRESS of
                    Inl p \<Rightarrow> (G_Panicked p, m2)
                  | Inr pc \<Rightarrow>
                      let body = \<lparr>PowerRequest.PowerState = ps, PowerControl = pc\<rparr>;
                          uri = concat [ServerHardware.URI (Blade m2), ''/powerState''];
                          m3 = logf Debugf (''REST : %s '' @ [CHR 0x0A] @ '' %+v'' @ [CHR 0x0A]) m2;
                          m4 = logf Debugf ''pt -> %+v'' m3
                      in (G_Put uri body, m4)))
          else
            (G_Done,
             (logf Infof ''Desired Power State already set -> %s'' m1)
               \<lparr>PowerTask.TaskStatus := True\<rparr>))"

definition submit_put :: "env \<Rightarrow> string \<Rightarrow> PowerRequest \<Rightarrow> machine \<Rightarrow> machine" where
  "submit_put env uri body m4 =
     (let m5 = emit (Call PUT uri (Some body)) m4 in
      case RestAPICall env (trace m4) PUT uri (Some body) of
        Inl err \<Rightarrow>
          logf Errorf ''Error with power state request: %s'' (m5\<lparr>PowerTask.TaskStatus := True\<rparr>)
      | Inr data \<Rightarrow>
          let m6 = logf Debugf ''SubmitPowerState %s'' m5 in
          (case json_Unmarshal env data (CurrentTask m6) of
             (Some err, t) \<Rightarrow>
               logf Errorf ''Error with power state un-marshal: %s''
                 (m6\<lparr>CurrentTask := t, PowerTask.TaskStatus := True\<rparr>)
           | (None, t) \<Rightarrow> m6\<lparr>CurrentTask := t\<rparr>))"

fun go_step :: "env \<Rightarrow> PowerState \<Rightarrow> goroutine \<times> machine \<Rightarrow> goroutine \<times> machine" where
  "go_step env s (G_Start, m) = submit_prepare env s m"
| "go_step env s (G_Put uri body, m) = (G_Done, submit_put env uri body m)"
| "go_step env s (G_Done, m) = (G_Done, m)"
| "go_step env s (G_Panicked p, m) = (G_Panicked p, m)"

text \<open>
  A schedule lists, for the successive points where the polling loop may be overtaken, how
  many parts of the goroutine run there; past its end the goroutine does not run. The
  points are: before every test of the loop condition (which covers the sleep), before the
  poll, and before the test for completion on line 180. A panic in a goroutine ends the
  whole process.
\<close>

definition yield ::
  "env \<Rightarrow> PowerState \<Rightarrow> nat list \<Rightarrow> goroutine \<Rightarrow> machine \<Rightarrow> nat list \<times> goroutine \<times> machine" where
  "yield env s sched g m =
     (case sched of
        [] \<Rightarrow> ([], g, m)
      | k # rest \<Rightarrow> (case (go_step env s ^^ k) (g, m) of (g1, m1) \<Rightarrow> (rest, g1, m1)))"

fun crashed :: "goroutine \<Rightarrow> panic option" where
  "crashed (G_Panicked p) = Some p"
| "crashed g = None"

datatype exit = Returned "error option" | Crashed panic

text \<open>
  One pass through the loop body, lines 177 to 192; \<open>None\<close> when the loop goes on.
  \<^verbatim>\<open>WaitTime\<close> is a \<^verbatim>\<open>time.Duration\<close>, a 64-bit integer, and the product passed to
  \<^verbatim>\<open>time.Sleep\<close> wraps as such. \<^verbatim>\<open>Timeout\<close> and the counter \<^verbatim>\<open>currenttime\<close> are Go integers,
  modelled as \<open>int\<close>: the counter is incremented only while it is below \<^verbatim>\<open>Timeout\<close>, so it
  never overflows.
\<close>

definition iteration ::
  "env \<Rightarrow> PowerState \<Rightarrow> nat list \<Rightarrow> goroutine \<Rightarrow> machine
     \<Rightarrow> exit option \<times> nat list \<times> goroutine \<times> machine" where
  "iteration env s sched g m =
     (case yield env s sched g m of (sched1, g1, m1) \<Rightarrow>
        (case crashed g1 of
           Some p \<Rightarrow> (Some (Crashed p), sched1, g1, m1)
         | None \<Rightarrow>
             (case GetCurrentTaskStatus env m1 of
                (Some err, m2) \<Rightarrow> (Some (Returned (Some err)), sched1, g1, m2)
              | (None, m2) \<Rightarrow>
                  (case yield env s sched1 g1 m2 of (sched2, g2, m3) \<Rightarrow>
                     (case crashed g2 of
                        Some p \<Rightarrow> (Some (Crashed p), sched2, g2, m3)
                      | None \<Rightarrow>
                          let m4 = (if Task.URI (CurrentTask m3) \<noteq> []
                                       \<and> T_COMPLETED_Equal (TaskState (CurrentTask m3))
                                    then m3\<lparr>PowerTask.TaskStatus := True\<rparr> else m3);
                              m5 = (if Task.URI (CurrentTask m4) \<noteq> []
                                    then logf Infof ''Working on power state,%d%%, %s.''
                                           (logf Debugf
                                              ''Waiting to set power state %s for blade %s, %s'' m4)
                                    else logf Infof ''Working on power state.'' m4);
                              m6 = emit (Sleep (1000000 * (1000 * WaitTime m5))) m5
                          in (None, sched2, g2, m6))))))"

text \<open>
  The goroutine and the loop body never assign \<^verbatim>\<open>Timeout\<close>; the loop's termination rests
  on that.
\<close>

lemma Timeout_emit [simp]: "Timeout (emit e m) = Timeout m"
  by (simp add: emit_def)

lemma Timeout_logf [simp]: "Timeout (logf l f m) = Timeout m"
  by (simp add: logf_def)

lemma Timeout_GetCurrentPowerState:
  "GetCurrentPowerState env m = (r, m1) \<Longrightarrow> Timeout m1 = Timeout m"
  by (auto simp: GetCurrentPowerState_def Let_def split: if_splits sum.splits)

lemma Timeout_submit_prepare:
  "submit_prepare env s m = (g, m1) \<Longrightarrow> Timeout m1 = Timeout m"
  by (auto simp: submit_prepare_def Let_def
      split: prod.splits result.splits option.splits if_splits sum.splits
      dest: Timeout_GetCurrentPowerState)

lemma Timeout_submit_put: "Timeout (submit_put env uri body m) = Timeout m"
  by (simp add: submit_put_def Let_def split: sum.splits prod.splits option.splits)

lemma Timeout_go_step: "go_step env s (g, m) = (g1, m1) \<Longrightarrow> Timeout m1 = Timeout m"
  by (cases g) (auto simp: Timeout_submit_put dest: Timeout_submit_prepare)

lemma Timeout_go_steps:
  "(go_step env s ^^ k) (g, m) = (g1, m1) \<Longrightarrow> Timeout m1 = Timeout m"
proof (induction k arbitrary: g1 m1)
  case 0
  then show ?case by simp
next
  case (Suc k)
  obtain g2 m2 where mid: "(go_step env s ^^ k) (g, m) = (g2, m2)"
    by (cases "(go_step env s ^^ k) (g, m)")
  with Suc.prems have "go_step env s (g2, m2) = (g1, m1)" by simp
  then have "Timeout m1 = Timeout m2" by (rule Timeout_go_step)
  with Suc.IH [OF mid] show ?case by simp
qed

lemma Timeout_yield:
  "yield env s sched g m = (sched1, g1, m1) \<Longrightarrow> Timeout m1 = Timeout m"
  by (auto simp: yield_def split: list.splits prod.splits dest: Timeout_go_steps)

lemma Timeout_GetCurrentTaskStatus:
  "GetCurrentTaskStatus env m = (r, m1) \<Longrightarrow> Timeout m1 = Timeout m"
  by (auto simp: GetCurrentTaskStatus_def Let_def
      split: if_splits sum.splits prod.splits option.splits)

lemma Timeout_iteration:
  "iteration env s sched g m = (r, sched1, g1, m1) \<Longrightarrow> Timeout m1 = Timeout m"
  by (auto simp: iteration_def Let_def
      split: prod.splits option.splits if_splits
      dest!: Timeout_yield Timeout_GetCurrentTaskStatus)

function PowerExecutor_loop ::
  "env \<Rightarrow> PowerState \<Rightarrow> nat list \<Rightarrow> goroutine \<Rightarrow> int \<Rightarrow> machine
     \<Rightarrow> exit \<times> int \<times> goroutine \<times> machine" where
  "PowerExecutor_loop env s sched g currenttime m =
     (case yield env s sched g m of (sched1, g1, m1) \<Rightarrow>
        (case crashed g1 of
           Some p \<Rightarrow> (Crashed p, currenttime, g1, m1)
         | None \<Rightarrow>
             if \<not> PowerTask.TaskStatus m1 \<and> currenttime < Timeout m1 then
               (case iteration env s sched1 g1 m1 of
                  (Some e, sched2, g2, m2) \<Rightarrow> (e, currenttime, g2, m2)
                | (None, sched2, g2, m2) \<Rightarrow>
                    PowerExecutor_loop env s sched2 g2 (currenttime + 1) m2)
             else
               let m2 = (if \<not> currenttime < Timeout m1
                         then logf Warnf ''Power %s state timed out for %s.'' m1 else m1)
               in (Returned None, currenttime, g1,
                   logf Infof ''Power Task Execution Completed'' m2)))"
  by pat_completeness auto
termination
proof (relation "measure (\<lambda>(env, s, sched, g, currenttime, m). nat (Timeout m - currenttime))")
  show "wf (measure (\<lambda>(env, s, sched, g, currenttime, m). nat (Timeout m - currenttime)))"
    by simp
next
  fix env s sched g currenttime m x sched1 y g1 m1 xa x2 yb sched2 yc g2 m2
  assume y: "(sched1, y) = yield env s sched g m" "(g1, m1) = y"
    and c: "\<not> PowerTask.TaskStatus m1 \<and> currenttime < Timeout m1"
    and i: "(xa, yb) = iteration env s sched1 g1 m1" "(sched2, yc) = yb" "(g2, m2) = yc"
  from y have "Timeout m1 = Timeout m"
    using Timeout_yield [of env s sched g m sched1 g1 m1] by simp
  moreover from i have "Timeout m2 = Timeout m1"
    using Timeout_iteration [of env s sched1 g1 m1 xa sched2 g2 m2] by simp
  ultimately show "((env, s, sched2, g2, currenttime + 1, m2), env, s, sched, g, currenttime, m)
      \<in> measure (\<lambda>(env, s, sched, g, currenttime, m). nat (Timeout m - currenttime))"
    using c by simp
qed


text \<open>The defining equation of the loop is unfolded by hand, one pass at a time.\<close>

declare PowerExecutor_loop.simps [simp del]

definition PowerExecutor ::
  "env \<Rightarrow> PowerState \<Rightarrow> nat list \<Rightarrow> machine \<Rightarrow> exit \<times> int \<times> goroutine \<times> machine" where
  "PowerExecutor env s sched m = PowerExecutor_loop env s sched G_Start 0 (ResetTask m)"

section \<open>Observing the trace; a sample remote system\<close>

text \<open>\<open>is_Call\<close> picks the REST calls out of a trace (a hardware lookup is not one).\<close>

fun is_Call :: "event \<Rightarrow> bool" where
  "is_Call (Call me uri body) = True"
| "is_Call e = False"

definition start :: "ServerHardware \<Rightarrow> machine" where
  "start b = PowerTask.extend (NewPowerTask b) (machine.fields [])"

text \<open>
  A small remote system to run the operations on: one blade whose reported power state is
  a parameter, fixed answers to PUT and GET, and a decoder that fails on the data \<open>{\<close> and
  otherwise stores the data as the lifecycle state of task \<open>/rest/tasks/7\<close>.
\<close>

definition blade1 :: ServerHardware where
  "blade1 =
     \<lparr>ServerHardware.URI = ''/rest/server-hardware/1'', Name = ''blade1'',
      SerialNumber = ''SN1'', PowerState = ''Off''\<rparr>"

definition decode_Task :: "string \<Rightarrow> Task \<Rightarrow> error option \<times> Task" where
  "decode_Task data t =
     (if data = ''{'' then (Some (errors_New ''unexpected end of JSON input''), t)
      else (None, t\<lparr>Task.URI := ''/rest/tasks/7'', TaskState := data\<rparr>))"

definition remote :: "string \<Rightarrow> error + string \<Rightarrow> error + string \<Rightarrow> env" where
  "remote ps put_answer get_answer =
     \<lparr>GetServerHardware = (\<lambda>h uri. Inr (blade1\<lparr>ServerHardware.PowerState := ps\<rparr>)),
      RestAPICall = (\<lambda>h me uri body. case me of PUT \<Rightarrow> put_answer | GET \<Rightarrow> get_answer),
      json_Unmarshal = decode_Task\<rparr>"

lemmas sample_defs = start_def NewPowerTask_def PowerTask.extend_def machine.fields_def
  blade1_def remote_def decode_Task_def empty_Task_def

text \<open>The sample task after a change request has been accepted: its handle has an address.\<close>

definition polling :: machine where
  "polling = (start blade1)\<lparr>CurrentTask := empty_Task\<lparr>Task.URI := ''/rest/tasks/7''\<rparr>\<rparr>"

text \<open>
  What is counted on a trace: the sleeps, one at the end of every pass through the loop
  body, and the polls, one Debug line at the start of every call of
  \<^verbatim>\<open>GetCurrentTaskStatus\<close>, which opens every pass.
\<close>

fun is_Sleep :: "event \<Rightarrow> bool" where
  "is_Sleep (Sleep d) = True"
| "is_Sleep e = False"

fun is_poll :: "event \<Rightarrow> bool" where
  "is_poll (Log l f) = (l = Debugf \<and> f = ''Working on getting current blade task status'')"
| "is_poll e = False"

definition sleeps :: "machine \<Rightarrow> nat" where
  "sleeps m = length (filter is_Sleep (trace m))"

definition polls :: "machine \<Rightarrow> nat" where
  "polls m = length (filter is_poll (trace m))"

text \<open>The sample task with two polls allowed instead of 36.\<close>

definition impatient :: machine where
  "impatient = (start blade1)\<lparr>Timeout := 2\<rparr>"

text \<open>The sample task with a single poll allowed.\<close>

definition hurried :: machine where
  "hurried = (start blade1)\<lparr>Timeout := 1\<rparr>"

section \<open>ResetTask\<close>

text \<open>
  C7. Whatever the task held before, after \<^verbatim>\<open>ResetTask\<close> the observed state is Unknown, the
  done flag is false and the task handle is the empty one (address, name and owner empty);
  the hardware reference, \<^verbatim>\<open>Timeout\<close> and \<^verbatim>\<open>WaitTime\<close> are the ones it had.
\<close>

theorem ResetTask_clears_attempt:
  "State (ResetTask pt) = P_UKNOWN
   \<and> PowerTask.TaskStatus (ResetTask pt) = False
   \<and> CurrentTask (ResetTask pt) = empty_Task
   \<and> Task.URI (CurrentTask (ResetTask pt)) = []
   \<and> Task.Name (CurrentTask (ResetTask pt)) = []
   \<and> Task.Owner (CurrentTask (ResetTask pt)) = []
   \<and> Blade (ResetTask pt) = Blade pt
   \<and> Timeout (ResetTask pt) = Timeout pt
   \<and> WaitTime (ResetTask pt) = WaitTime pt"
  by (simp add: ResetTask_def empty_Task_def)

section \<open>Case-insensitive comparison\<close>

text \<open>
  Which strings \<^verbatim>\<open>Equal\<close> accepts for the constants \<^verbatim>\<open>P_ON\<close> and \<^verbatim>\<open>P_OFF\<close>: the upper-case image
  of a string is \<open>ON\<close> (or \<open>OFF\<close>) exactly for the spellings of that word in upper and lower
  case letters.
\<close>

lemma of_char_ToUpper_char:
  "(of_char (ToUpper_char c) :: nat) =
     (if 97 \<le> (of_char c :: nat) \<and> (of_char c :: nat) \<le> 122 then of_char c - 32 else of_char c)"
  by (auto simp: ToUpper_char_def Let_def)

lemma ToUpper_char_eq_iff:
  assumes "65 \<le> (of_char u :: nat)" "(of_char u :: nat) \<le> 90"
  shows "ToUpper_char c = u
    \<longleftrightarrow> (of_char c :: nat) = of_char u \<or> (of_char c :: nat) = of_char u + 32"
proof -
  have "ToUpper_char c = u \<longleftrightarrow> (of_char (ToUpper_char c) :: nat) = of_char u"
    by (metis char_of_char)
  also have "\<dots> \<longleftrightarrow> (of_char c :: nat) = of_char u \<or> (of_char c :: nat) = of_char u + 32"
    using assms by (auto simp: of_char_ToUpper_char)
  finally show ?thesis .
qed

lemma of_char_eq_iff: "(of_char c :: nat) = of_char d \<longleftrightarrow> c = d"
  by (metis char_of_char)

lemma ToUpper_char_O: "ToUpper_char c = CHR ''O'' \<longleftrightarrow> c = CHR ''O'' \<or> c = CHR ''o''"
proof -
  have "ToUpper_char c = CHR ''O''
    \<longleftrightarrow> (of_char c :: nat) = of_char CHR ''O'' \<or> (of_char c :: nat) = of_char CHR ''O'' + 32"
    by (rule ToUpper_char_eq_iff) simp_all
  also have "(of_char CHR ''O'' :: nat) + 32 = of_char CHR ''o''" by simp
  finally show ?thesis by (simp only: of_char_eq_iff)
qed

lemma ToUpper_char_N: "ToUpper_char c = CHR ''N'' \<longleftrightarrow> c = CHR ''N'' \<or> c = CHR ''n''"
proof -
  have "ToUpper_char c = CHR ''N''
    \<longleftrightarrow> (of_char c :: nat) = of_char CHR ''N'' \<or> (of_char c :: nat) = of_char CHR ''N'' + 32"
    by (rule ToUpper_char_eq_iff) simp_all
  also have "(of_char CHR ''N'' :: nat) + 32 = of_char CHR ''n''" by simp
  finally show ?thesis by (simp only: of_char_eq_iff)
qed

lemma ToUpper_char_F: "ToUpper_char c = CHR ''F'' \<longleftrightarrow> c = CHR ''F'' \<or> c = CHR ''f''"
proof -
  have "ToUpper_char c = CHR ''F''
    \<longleftrightarrow> (of_char c :: nat) = of_char CHR ''F'' \<or> (of_char c :: nat) = of_char CHR ''F'' + 32"
    by (rule ToUpper_char_eq_iff) simp_all
  also have "(of_char CHR ''F'' :: nat) + 32 = of_char CHR ''f''" by simp
  finally show ?thesis by (simp only: of_char_eq_iff)
qed

lemma ToUpper_On: "strings_ToUpper ''On'' = ''ON''"
  by code_simp

lemma ToUpper_Off: "strings_ToUpper ''Off'' = ''OFF''"
  by code_simp

lemma ToUpper_eq_ON:
  "strings_ToUpper s = ''ON'' \<longleftrightarrow> s \<in> {''ON'', ''On'', ''oN'', ''on''}"
  by (auto simp: strings_ToUpper_def map_eq_Cons_conv ToUpper_char_O ToUpper_char_N)

lemma ToUpper_three:
  "strings_ToUpper s = [x, y, z] \<longleftrightarrow>
     (\<exists>a b c. s = [a, b, c] \<and> ToUpper_char a = x \<and> ToUpper_char b = y \<and> ToUpper_char c = z)"
  by (auto simp: strings_ToUpper_def map_eq_Cons_conv)

lemma ToUpper_eq_OFF:
  "strings_ToUpper s = ''OFF''
    \<longleftrightarrow> s \<in> {''OFF'', ''OFf'', ''OfF'', ''Off'', ''oFF'', ''oFf'', ''ofF'', ''off''}"
proof
  assume "strings_ToUpper s = ''OFF''"
  then obtain a b c where s: "s = [a, b, c]"
    and a: "a = CHR ''O'' \<or> a = CHR ''o''" and b: "b = CHR ''F'' \<or> b = CHR ''f''"
    and c: "c = CHR ''F'' \<or> c = CHR ''f''"
    unfolding ToUpper_three ToUpper_char_O ToUpper_char_F by blast
  from a b c show "s \<in> {''OFF'', ''OFf'', ''OfF'', ''Off'', ''oFF'', ''oFf'', ''ofF'', ''off''}"
    unfolding s by (elim disjE) simp_all
next
  assume "s \<in> {''OFF'', ''OFf'', ''OfF'', ''Off'', ''oFF'', ''oFf'', ''ofF'', ''off''}"
  then show "strings_ToUpper s = ''OFF''"
    unfolding ToUpper_three ToUpper_char_O ToUpper_char_F by (elim insertE emptyE) simp_all
qed

lemma PowerState_String_cases:
  "PowerState_String p =
     (if p = P_ON then Inr ''On'' else if p = P_OFF then Inr ''Off''
      else if p = P_UKNOWN then Inr ''UNKNOWN'' else Inl IndexOutOfRange)"
proof -
  have "p \<le> 0 \<or> p = 1 \<or> p = 2 \<or> p = 3 \<or> 4 \<le> p" by arith
  then show ?thesis
    by (elim disjE)
      (simp_all add: PowerState_String_def index_array_def powerstates_def
        P_ON_def P_OFF_def P_UKNOWN_def)
qed

lemma PowerControl_String_MOMPRESS: "PowerControl_String P_MOMPRESS = Inr ''MomentaryPress''"
  by (simp add: PowerControl_String_def index_array_def powercontrols_def P_MOMPRESS_def)

lemma String_P_OFF: "PowerState_String P_OFF = Inr ''Off''"
  by (simp add: PowerState_String_def index_array_def powerstates_def P_OFF_def)

lemma String_P_ON: "PowerState_String P_ON = Inr ''On''"
  by (simp add: PowerState_String_def index_array_def powerstates_def P_ON_def)

lemma Equal_P_OFF:
  "PowerState_Equal P_OFF s =
     Inr (s \<in> {''OFF'', ''OFf'', ''OfF'', ''Off'', ''oFF'', ''oFf'', ''ofF'', ''off''})"
  by (simp add: PowerState_Equal_def String_P_OFF ToUpper_Off ToUpper_eq_OFF)

lemma Equal_P_ON: "PowerState_Equal P_ON s = Inr (s \<in> {''ON'', ''On'', ''oN'', ''on''})"
  by (simp add: PowerState_Equal_def String_P_ON ToUpper_On ToUpper_eq_ON)


section \<open>Rendering of the enumerations\<close>

text \<open>
  C10. \<^verbatim>\<open>String()\<close> of a \<^verbatim>\<open>PowerState\<close> and of a \<^verbatim>\<open>PowerControl\<close> reads a table of three
  strings at position ordinal minus one. It returns that entry for the ordinals 1 to 3,
  which are the three declared constants of each type, and for every other value the index
  is out of range and the call panics instead of returning a string.
\<close>

theorem String_only_for_declared_constants:
  "PowerState_String p =
     (if 1 \<le> p \<and> p \<le> 3 then Inr (powerstates ! nat (p - 1)) else Inl IndexOutOfRange)
   \<and> PowerControl_String pc =
     (if 1 \<le> pc \<and> pc \<le> 3 then Inr (powercontrols ! nat (pc - 1)) else Inl IndexOutOfRange)
   \<and> length powerstates = 3 \<and> length powercontrols = 3
   \<and> (p \<in> {P_ON, P_OFF, P_UKNOWN} \<longleftrightarrow> 1 \<le> p \<and> p \<le> 3)
   \<and> (pc \<in> {P_COLDBOOT, P_MOMPRESS, P_RESET} \<longleftrightarrow> 1 \<le> pc \<and> pc \<le> 3)"
proof -
  have "p \<in> {P_ON, P_OFF, P_UKNOWN} \<longleftrightarrow> 1 \<le> p \<and> p \<le> 3"
    unfolding P_ON_def P_OFF_def P_UKNOWN_def by auto
  moreover have "pc \<in> {P_COLDBOOT, P_MOMPRESS, P_RESET} \<longleftrightarrow> 1 \<le> pc \<and> pc \<le> 3"
    unfolding P_COLDBOOT_def P_MOMPRESS_def P_RESET_def by auto
  moreover have "PowerState_String p =
     (if 1 \<le> p \<and> p \<le> 3 then Inr (powerstates ! nat (p - 1)) else Inl IndexOutOfRange)"
    by (simp add: PowerState_String_def index_array_def powerstates_def)
  moreover have "PowerControl_String pc =
     (if 1 \<le> pc \<and> pc \<le> 3 then Inr (powercontrols ! nat (pc - 1)) else Inl IndexOutOfRange)"
    by (simp add: PowerControl_String_def index_array_def powercontrols_def)
  moreover have "length powerstates = 3" "length powercontrols = 3"
    by (simp_all add: powerstates_def powercontrols_def)
  ultimately show ?thesis by blast
qed

theorem String_only_for_declared_constants_witness:
  "PowerState_String 0 = Inl IndexOutOfRange \<and> PowerState_String 4 = Inl IndexOutOfRange
   \<and> PowerState_String 2 = Inr ''Off''
   \<and> PowerControl_String 0 = Inl IndexOutOfRange \<and> PowerControl_String 4 = Inl IndexOutOfRange
   \<and> PowerControl_String 2 = Inr ''MomentaryPress''"
  using String_only_for_declared_constants [of 0 0]
    String_only_for_declared_constants [of 4 4]
    String_only_for_declared_constants [of 2 2]
  by (simp add: powerstates_def powercontrols_def)

section \<open>GetCurrentPowerState\<close>

lemma GetCurrentPowerState_no_hardware:
  "ServerHardware.URI (Blade m) = [] \<Longrightarrow>
     GetCurrentPowerState env m =
       (Return (Some (errors_New ''Can't get power on blade without hardware'')),
        m\<lparr>State := P_UKNOWN\<rparr>)"
  by (simp add: GetCurrentPowerState_def)

lemma GetCurrentPowerState_found:
  assumes "ServerHardware.URI (Blade m) \<noteq> []"
    and "GetServerHardware env (trace m) (ServerHardware.URI (Blade m)) = Inr b"
  shows "GetCurrentPowerState env m =
     (Return None,
      m\<lparr>Blade := b,
        State :=
          (if ServerHardware.PowerState b
                \<in> {''OFF'', ''OFf'', ''OfF'', ''Off'', ''oFF'', ''oFf'', ''ofF'', ''off''}
           then P_OFF
           else if ServerHardware.PowerState b \<in> {''ON'', ''On'', ''oN'', ''on''} then P_ON
           else P_UKNOWN),
        trace := trace m
          @ [Lookup (ServerHardware.URI (Blade m)),
             Log Debugf ''GetCurrentPowerState() blade -> %+v'']
          @ (if ServerHardware.PowerState b
                \<in> {''OFF'', ''OFf'', ''OfF'', ''Off'', ''oFF'', ''oFf'', ''ofF'', ''off'',
                    ''ON'', ''On'', ''oN'', ''on''}
             then [] else [Log Warnf ''Un-known power state detected %s, for %s.''])\<rparr>)"
  using assms
  by (simp add: GetCurrentPowerState_def Let_def Equal_P_OFF Equal_P_ON emit_def logf_def)

text \<open>
  C8. When the hardware unit of the task has an empty address, \<^verbatim>\<open>GetCurrentPowerState\<close>
  returns the error \<^verbatim>\<open>Can't get power on blade without hardware\<close>, has set the observed state
  to Unknown, and has appended nothing to the trace: no lookup was made.
\<close>

theorem GetCurrentPowerState_without_hardware:
  assumes "ServerHardware.URI (Blade m) = []"
  shows "fst (GetCurrentPowerState env m)
           = Return (Some (errors_New ''Can't get power on blade without hardware''))
     \<and> State (snd (GetCurrentPowerState env m)) = P_UKNOWN
     \<and> snd (GetCurrentPowerState env m) = m\<lparr>State := P_UKNOWN\<rparr>
     \<and> trace (snd (GetCurrentPowerState env m)) = trace m"
  using assms by (simp add: GetCurrentPowerState_no_hardware)

theorem GetCurrentPowerState_without_hardware_witness:
  "ServerHardware.URI (Blade (start (blade1\<lparr>ServerHardware.URI := []\<rparr>))) = []
   \<and> fst (GetCurrentPowerState (remote ''On'' (Inr ''Running'') (Inr ''Completed''))
            (start (blade1\<lparr>ServerHardware.URI := []\<rparr>)))
       = Return (Some (errors_New ''Can't get power on blade without hardware''))
   \<and> trace (snd (GetCurrentPowerState (remote ''On'' (Inr ''Running'') (Inr ''Completed''))
            (start (blade1\<lparr>ServerHardware.URI := []\<rparr>)))) = []"
proof -
  have h: "ServerHardware.URI (Blade (start (blade1\<lparr>ServerHardware.URI := []\<rparr>))) = []"
    by (simp add: sample_defs)
  have "trace (start (blade1\<lparr>ServerHardware.URI := []\<rparr>)) = []"
    by (simp add: sample_defs)
  with h GetCurrentPowerState_without_hardware [OF h] show ?thesis by simp
qed

text \<open>
  C5. When the unit has an address and the lookup answers, \<^verbatim>\<open>GetCurrentPowerState\<close> returns
  without error or panic whatever string the remote system reports, and the observed state
  is one of On, Off, Unknown: Off exactly for the spellings of \<open>off\<close> in upper and lower case
  letters, On exactly for those of \<open>on\<close>, Unknown for every other string; the warning is
  logged exactly when the state is Unknown, and no error is logged.
\<close>

theorem GetCurrentPowerState_classifies:
  assumes "ServerHardware.URI (Blade m) \<noteq> []"
    and "GetServerHardware env (trace m) (ServerHardware.URI (Blade m)) = Inr b"
  shows "fst (GetCurrentPowerState env m) = Return None
     \<and> State (snd (GetCurrentPowerState env m)) \<in> {P_ON, P_OFF, P_UKNOWN}
     \<and> (State (snd (GetCurrentPowerState env m)) = P_OFF \<longleftrightarrow>
          ServerHardware.PowerState b
            \<in> {''OFF'', ''OFf'', ''OfF'', ''Off'', ''oFF'', ''oFf'', ''ofF'', ''off''})
     \<and> (State (snd (GetCurrentPowerState env m)) = P_ON \<longleftrightarrow>
          ServerHardware.PowerState b \<in> {''ON'', ''On'', ''oN'', ''on''})
     \<and> (State (snd (GetCurrentPowerState env m)) = P_UKNOWN \<longleftrightarrow>
          ServerHardware.PowerState b
            \<notin> {''OFF'', ''OFf'', ''OfF'', ''Off'', ''oFF'', ''oFf'', ''ofF'', ''off'',
                ''ON'', ''On'', ''oN'', ''on''})
     \<and> trace (snd (GetCurrentPowerState env m))
         = trace m
           @ [Lookup (ServerHardware.URI (Blade m)),
              Log Debugf ''GetCurrentPowerState() blade -> %+v'']
           @ (if State (snd (GetCurrentPowerState env m)) = P_UKNOWN
              then [Log Warnf ''Un-known power state detected %s, for %s.''] else [])"
proof -
  define off where "off \<longleftrightarrow> ServerHardware.PowerState b
      \<in> {''OFF'', ''OFf'', ''OfF'', ''Off'', ''oFF'', ''oFf'', ''ofF'', ''off''}"
  define on where "on \<longleftrightarrow> ServerHardware.PowerState b \<in> {''ON'', ''On'', ''oN'', ''on''}"
  define known where "known \<longleftrightarrow> ServerHardware.PowerState b
      \<in> {''OFF'', ''OFf'', ''OfF'', ''Off'', ''oFF'', ''oFf'', ''ofF'', ''off'',
          ''ON'', ''On'', ''oN'', ''on''}"
  let ?m' = "snd (GetCurrentPowerState env m)"
  have excl: "\<not> (off \<and> on)" unfolding off_def on_def by auto
  have known: "known \<longleftrightarrow> off \<or> on" unfolding off_def on_def known_def by auto
  have st: "State ?m' = (if off then P_OFF else if on then P_ON else P_UKNOWN)"
    unfolding off_def on_def by (simp add: GetCurrentPowerState_found [OF assms])
  have tr: "trace ?m'
      = trace m @ [Lookup (ServerHardware.URI (Blade m)),
                   Log Debugf ''GetCurrentPowerState() blade -> %+v'']
        @ (if known then [] else [Log Warnf ''Un-known power state detected %s, for %s.''])"
    unfolding known_def by (simp add: GetCurrentPowerState_found [OF assms])
  have r: "fst (GetCurrentPowerState env m) = Return None"
    by (simp add: GetCurrentPowerState_found [OF assms])
  have g0: "State ?m' \<in> {P_ON, P_OFF, P_UKNOWN}" using st by simp
  have g1: "State ?m' = P_OFF \<longleftrightarrow> off"
    using st excl by (simp add: P_ON_def P_OFF_def P_UKNOWN_def)
  have g2: "State ?m' = P_ON \<longleftrightarrow> on"
    using st excl by (auto simp: P_ON_def P_OFF_def P_UKNOWN_def)
  have g3: "State ?m' = P_UKNOWN \<longleftrightarrow> \<not> known"
    using st known by (simp add: P_ON_def P_OFF_def P_UKNOWN_def)
  have g4: "trace ?m'
      = trace m @ [Lookup (ServerHardware.URI (Blade m)),
                   Log Debugf ''GetCurrentPowerState() blade -> %+v'']
        @ (if State ?m' = P_UKNOWN
           then [Log Warnf ''Un-known power state detected %s, for %s.''] else [])"
    using tr g3 by simp
  from r g0 g1 [unfolded off_def] g2 [unfolded on_def] g3 [unfolded known_def] g4
  show ?thesis by (intro conjI) assumption+
qed

theorem GetCurrentPowerState_classifies_witness:
  "State (snd (GetCurrentPowerState (remote ''oFf'' (Inr ''Running'') (Inr ''Completed''))
       (start blade1))) = P_OFF
   \<and> State (snd (GetCurrentPowerState (remote ''ON'' (Inr ''Running'') (Inr ''Completed''))
       (start blade1))) = P_ON
   \<and> State (snd (GetCurrentPowerState (remote ''PoweringOn'' (Inr ''Running'') (Inr ''Completed''))
       (start blade1))) = P_UKNOWN
   \<and> fst (GetCurrentPowerState (remote ''PoweringOn'' (Inr ''Running'') (Inr ''Completed''))
       (start blade1)) = Return None
   \<and> trace (snd (GetCurrentPowerState (remote ''PoweringOn'' (Inr ''Running'') (Inr ''Completed''))
       (start blade1)))
      = [Lookup ''/rest/server-hardware/1'', Log Debugf ''GetCurrentPowerState() blade -> %+v'',
         Log Warnf ''Un-known power state detected %s, for %s.'']"
proof -
  have u: "ServerHardware.URI (Blade (start blade1)) \<noteq> []"
    and t: "trace (start blade1) = []"
    and uri: "ServerHardware.URI (Blade (start blade1)) = ''/rest/server-hardware/1''"
    by (simp_all add: sample_defs)
  have l: "GetServerHardware (remote ps p g) (trace (start blade1))
      (ServerHardware.URI (Blade (start blade1)))
        = Inr (blade1\<lparr>ServerHardware.PowerState := ps\<rparr>)" for ps p g
    by (simp add: remote_def)
  show ?thesis
    using GetCurrentPowerState_classifies [OF u l, of "''oFf''"]
      GetCurrentPowerState_classifies [OF u l, of "''ON''"]
      GetCurrentPowerState_classifies [OF u l, of "''PoweringOn''"]
    by (simp add: t uri)
qed

section \<open>SubmitPowerState\<close>

lemma GetCurrentPowerState_never_panics: "fst (GetCurrentPowerState env m) \<noteq> Panic p"
  by (simp add: GetCurrentPowerState_def Let_def Equal_P_OFF Equal_P_ON split: sum.splits)

lemma GetCurrentPowerState_frame:
  assumes "GetCurrentPowerState env m = (r, m1)"
  shows "CurrentTask m1 = CurrentTask m" and "PowerTask.TaskStatus m1 = PowerTask.TaskStatus m"
    and "WaitTime m1 = WaitTime m" and "filter is_Call (trace m1) = filter is_Call (trace m)"
  using assms
  by (auto simp: GetCurrentPowerState_def Let_def Equal_P_OFF Equal_P_ON emit_def logf_def
      split: if_splits sum.splits)

lemma GetCurrentPowerState_State:
  "GetCurrentPowerState env m = (r, m1) \<Longrightarrow> r = Return None \<Longrightarrow> State m1 \<in> {P_ON, P_OFF, P_UKNOWN}"
  by (auto simp: GetCurrentPowerState_def Let_def Equal_P_OFF Equal_P_ON emit_def logf_def
      split: if_splits sum.splits)

lemma SubmitPowerState_phases:
  "SubmitPowerState env s m =
     (case submit_prepare env s m of
        (G_Put uri body, m4) \<Rightarrow> (Return (), submit_put env uri body m4)
      | (G_Panicked p, m1) \<Rightarrow> (Panic p, m1)
      | (g, m1) \<Rightarrow> (Return (), m1))"
  by (simp add: SubmitPowerState_def submit_prepare_def submit_put_def Let_def
      split: prod.splits result.splits option.splits sum.splits)

lemma SubmitPowerState_already_set:
  assumes "GetCurrentPowerState env m = (Return None, m1)" and "State m1 = s"
  shows "SubmitPowerState env s m =
     (Return (),
      m1\<lparr>PowerTask.TaskStatus := True,
         trace := trace m1 @ [Log Infof ''Desired Power State already set -> %s'']\<rparr>)"
  using assms by (simp add: SubmitPowerState_def logf_def emit_def)

lemma submit_prepare_differs:
  assumes "GetCurrentPowerState env m = (Return None, m1)" and "s \<noteq> State m1"
    and "PowerState_String s = Inr ps"
  shows "submit_prepare env s m =
     (G_Put (ServerHardware.URI (Blade m1) @ ''/powerState'')
        \<lparr>PowerRequest.PowerState = ps, PowerControl = ''MomentaryPress''\<rparr>,
      m1\<lparr>trace := trace m1
          @ [Log Infof ''Powering %s server %s for %s.'',
             Log Debugf (''REST : %s '' @ [CHR 0x0A] @ '' %+v'' @ [CHR 0x0A]),
             Log Debugf ''pt -> %+v'']\<rparr>)"
  using assms
  by (simp add: submit_prepare_def PowerControl_String_MOMPRESS Let_def logf_def emit_def)

lemma submit_put_calls:
  "filter is_Call (trace (submit_put env uri body m))
     = filter is_Call (trace m) @ [Call PUT uri (Some body)]"
  by (simp add: submit_put_def Let_def logf_def emit_def split: sum.splits prod.splits option.splits)

lemma sample_prepare:
  "submit_prepare (remote ''Off'' p g) P_ON (start blade1)
     = (G_Put ''/rest/server-hardware/1/powerState''
          \<lparr>PowerRequest.PowerState = ''On'', PowerControl = ''MomentaryPress''\<rparr>,
        snd (submit_prepare (remote ''Off'' p g) P_ON (start blade1)))"
proof -
  let ?env = "remote ''Off'' p g"
  have u: "ServerHardware.URI (Blade (start blade1)) \<noteq> []"
    by (simp add: sample_defs)
  have l: "GetServerHardware ?env (trace (start blade1))
      (ServerHardware.URI (Blade (start blade1)))
        = Inr (blade1\<lparr>ServerHardware.PowerState := ''Off''\<rparr>)"
    by (simp add: remote_def)
  have g: "GetCurrentPowerState ?env (start blade1)
      = (Return None, snd (GetCurrentPowerState ?env (start blade1)))"
    by (simp add: GetCurrentPowerState_found [OF u l])
  have st: "P_ON \<noteq> State (snd (GetCurrentPowerState ?env (start blade1)))"
    by (simp add: GetCurrentPowerState_found [OF u l] P_ON_def P_OFF_def)
  have b: "ServerHardware.URI (Blade (snd (GetCurrentPowerState ?env (start blade1))))
      = ''/rest/server-hardware/1''"
    by (simp add: GetCurrentPowerState_found [OF u l]) (simp add: blade1_def)
  show ?thesis
    by (simp add: submit_prepare_differs [OF g st String_P_ON] b)
qed

text \<open>
  \<^verbatim>\<open>SubmitPowerState\<close> can be called on a task whose handle is not empty. On the sample
  task whose handle has the address \<open>/rest/tasks/7\<close>, with the blade reporting Off and Off
  requested, it sets the done flag without any REST call, and the handle still has that
  address afterwards: lines 141 to 144 never assign \<^verbatim>\<open>CurrentTask\<close>.
\<close>

theorem SubmitPowerState_stale_handle_counterexample:
  "fst (GetCurrentPowerState (remote ''Off'' (Inr ''Running'') (Inr ''Completed'')) polling)
     = Return None
   \<and> State (snd (GetCurrentPowerState (remote ''Off'' (Inr ''Running'') (Inr ''Completed''))
               polling)) = P_OFF
   \<and> fst (SubmitPowerState (remote ''Off'' (Inr ''Running'') (Inr ''Completed'')) P_OFF polling)
       = Return ()
   \<and> PowerTask.TaskStatus
        (snd (SubmitPowerState (remote ''Off'' (Inr ''Running'') (Inr ''Completed'')) P_OFF
               polling)) = True
   \<and> filter is_Call (trace
        (snd (SubmitPowerState (remote ''Off'' (Inr ''Running'') (Inr ''Completed'')) P_OFF
               polling))) = []
   \<and> Task.URI (CurrentTask
        (snd (SubmitPowerState (remote ''Off'' (Inr ''Running'') (Inr ''Completed'')) P_OFF
               polling))) = ''/rest/tasks/7''
   \<and> CurrentTask
        (snd (SubmitPowerState (remote ''Off'' (Inr ''Running'') (Inr ''Completed'')) P_OFF
               polling)) \<noteq> empty_Task"
proof -
  let ?env = "remote ''Off'' (Inr ''Running'') (Inr ''Completed'')"
  have u: "ServerHardware.URI (Blade polling) \<noteq> []"
    by (simp add: polling_def sample_defs)
  have l: "GetServerHardware ?env (trace polling) (ServerHardware.URI (Blade polling))
        = Inr (blade1\<lparr>ServerHardware.PowerState := ''Off''\<rparr>)"
    by (simp add: remote_def)
  have g: "GetCurrentPowerState ?env polling
      = (Return None, snd (GetCurrentPowerState ?env polling))"
    by (simp add: GetCurrentPowerState_found [OF u l])
  have st: "State (snd (GetCurrentPowerState ?env polling)) = P_OFF"
    by (simp add: GetCurrentPowerState_found [OF u l])
  have tr: "trace (snd (GetCurrentPowerState ?env polling))
      = [Lookup (ServerHardware.URI (Blade polling)),
         Log Debugf ''GetCurrentPowerState() blade -> %+v'']"
    by (simp add: GetCurrentPowerState_found [OF u l]) (simp add: polling_def sample_defs)
  have h: "CurrentTask (snd (GetCurrentPowerState ?env polling))
      = empty_Task\<lparr>Task.URI := ''/rest/tasks/7''\<rparr>"
    by (simp add: GetCurrentPowerState_found [OF u l]) (simp add: polling_def)
  show ?thesis
    unfolding SubmitPowerState_already_set [OF g st]
    by (simp add: GetCurrentPowerState_found [OF u l] tr h)
      (simp add: polling_def sample_defs)
qed

text \<open>
  C1, with the handle left as it was. When the power state that \<^verbatim>\<open>SubmitPowerState\<close> has
  just observed is the requested one, it returns having set the done flag \<^verbatim>\<open>TaskStatus\<close>,
  without any REST call (so no PUT): the trace grows by the lookup's entries and one Info
  line only. The task handle is the one the task had before the call, so it is empty
  afterwards exactly when it was empty before, as it is after \<^verbatim>\<open>ResetTask\<close>. Submitting a
  state that is already there therefore changes nothing on the remote system, however
  often it is repeated.
\<close>

theorem SubmitPowerState_already_satisfied:
  assumes "GetCurrentPowerState env m = (Return None, m1)" and "State m1 = s"
  shows "fst (SubmitPowerState env s m) = Return ()
     \<and> PowerTask.TaskStatus (snd (SubmitPowerState env s m)) = True
     \<and> CurrentTask (snd (SubmitPowerState env s m)) = CurrentTask m
     \<and> (CurrentTask m = empty_Task \<longrightarrow>
          CurrentTask (snd (SubmitPowerState env s m)) = empty_Task)
     \<and> filter is_Call (trace (snd (SubmitPowerState env s m))) = filter is_Call (trace m)
     \<and> trace (snd (SubmitPowerState env s m))
         = trace m1 @ [Log Infof ''Desired Power State already set -> %s'']"
  using GetCurrentPowerState_frame [OF assms(1)]
  by (simp add: SubmitPowerState_already_set [OF assms])

theorem SubmitPowerState_already_satisfied_witness:
  "GetCurrentPowerState (remote ''Off'' (Inr ''Running'') (Inr ''Completed'')) (start blade1)
     = (Return None,
        snd (GetCurrentPowerState (remote ''Off'' (Inr ''Running'') (Inr ''Completed''))
               (start blade1)))
   \<and> State (snd (GetCurrentPowerState (remote ''Off'' (Inr ''Running'') (Inr ''Completed''))
               (start blade1))) = P_OFF
   \<and> PowerTask.TaskStatus
        (snd (SubmitPowerState (remote ''Off'' (Inr ''Running'') (Inr ''Completed'')) P_OFF
               (start blade1))) = True
   \<and> CurrentTask
        (snd (SubmitPowerState (remote ''Off'' (Inr ''Running'') (Inr ''Completed'')) P_OFF
               (start blade1))) = empty_Task
   \<and> filter is_Call (trace
        (snd (SubmitPowerState (remote ''Off'' (Inr ''Running'') (Inr ''Completed'')) P_OFF
               (start blade1)))) = []"
proof -
  let ?env = "remote ''Off'' (Inr ''Running'') (Inr ''Completed'')"
  have u: "ServerHardware.URI (Blade (start blade1)) \<noteq> []"
    by (simp add: sample_defs)
  have l: "GetServerHardware ?env (trace (start blade1))
      (ServerHardware.URI (Blade (start blade1)))
        = Inr (blade1\<lparr>ServerHardware.PowerState := ''Off''\<rparr>)"
    by (simp add: remote_def)
  have g: "GetCurrentPowerState ?env (start blade1)
      = (Return None, snd (GetCurrentPowerState ?env (start blade1)))"
    by (simp add: GetCurrentPowerState_found [OF u l])
  have st: "State (snd (GetCurrentPowerState ?env (start blade1))) = P_OFF"
    by (simp add: GetCurrentPowerState_found [OF u l])
  have s0: "CurrentTask (start blade1) = empty_Task" "trace (start blade1) = []"
    by (simp_all add: sample_defs)
  have tr: "trace (snd (GetCurrentPowerState ?env (start blade1)))
      = [Lookup (ServerHardware.URI (Blade (start blade1))),
         Log Debugf ''GetCurrentPowerState() blade -> %+v'']"
    by (simp add: GetCurrentPowerState_found [OF u l] s0)
  show ?thesis
    using g st SubmitPowerState_already_satisfied [OF g st] by (simp add: s0 tr)
qed

text \<open>
  The target of a submission is any value of the integer type \<^verbatim>\<open>PowerState\<close>. For the
  target 0, which differs from every state that can be observed, line 122 panics on
  \<^verbatim>\<open>s.String()\<close> before the PUT: no change request is issued.
\<close>

theorem SubmitPowerState_undeclared_target_counterexample:
  "fst (GetCurrentPowerState (remote ''Off'' (Inr ''Running'') (Inr ''Completed'')) (start blade1))
     = Return None
   \<and> State (snd (GetCurrentPowerState (remote ''Off'' (Inr ''Running'') (Inr ''Completed''))
               (start blade1))) \<noteq> 0
   \<and> fst (SubmitPowerState (remote ''Off'' (Inr ''Running'') (Inr ''Completed'')) 0
            (start blade1)) = Panic IndexOutOfRange
   \<and> filter is_Call (trace
        (snd (SubmitPowerState (remote ''Off'' (Inr ''Running'') (Inr ''Completed'')) 0
               (start blade1)))) = []"
proof -
  let ?env = "remote ''Off'' (Inr ''Running'') (Inr ''Completed'')"
  have u: "ServerHardware.URI (Blade (start blade1)) \<noteq> []"
    by (simp add: sample_defs)
  have l: "GetServerHardware ?env (trace (start blade1))
      (ServerHardware.URI (Blade (start blade1)))
        = Inr (blade1\<lparr>ServerHardware.PowerState := ''Off''\<rparr>)"
    by (simp add: remote_def)
  have s0: "trace (start blade1) = []"
    by (simp add: sample_defs)
  have p: "PowerState_String 0 = Inl IndexOutOfRange"
    by (simp add: PowerState_String_def index_array_def)
  show ?thesis
    by (simp add: SubmitPowerState_def GetCurrentPowerState_found [OF u l] p s0
        P_OFF_def logf_def emit_def)
qed

text \<open>
  C6, for a declared target. When the power state just observed differs from the requested
  one and the target is one of the three declared constants, \<^verbatim>\<open>SubmitPowerState\<close> returns
  after exactly one REST call: a PUT to the address of the freshly fetched unit followed by
  \<^verbatim>\<open>/powerState\<close>, whose body holds the target's \<^verbatim>\<open>String()\<close> as power state and
  \<^verbatim>\<open>MomentaryPress\<close> as power control.
\<close>

theorem SubmitPowerState_one_change_request:
  assumes "GetCurrentPowerState env m = (Return None, m1)" and "s \<noteq> State m1"
    and "s \<in> {P_ON, P_OFF, P_UKNOWN}"
  shows "\<exists>ps. PowerState_String s = Inr ps
     \<and> fst (SubmitPowerState env s m) = Return ()
     \<and> filter is_Call (trace (snd (SubmitPowerState env s m)))
         = filter is_Call (trace m)
           @ [Call PUT (ServerHardware.URI (Blade m1) @ ''/powerState'')
                (Some \<lparr>PowerRequest.PowerState = ps, PowerControl = ''MomentaryPress''\<rparr>)]"
proof -
  from assms(3) obtain ps where ps: "PowerState_String s = Inr ps"
    by (auto simp: PowerState_String_cases P_ON_def P_OFF_def P_UKNOWN_def)
  note prep = submit_prepare_differs [OF assms(1,2) ps]
  have "fst (SubmitPowerState env s m) = Return ()"
    by (simp add: SubmitPowerState_phases prep)
  moreover have "filter is_Call (trace (snd (SubmitPowerState env s m)))
         = filter is_Call (trace m)
           @ [Call PUT (ServerHardware.URI (Blade m1) @ ''/powerState'')
                (Some \<lparr>PowerRequest.PowerState = ps, PowerControl = ''MomentaryPress''\<rparr>)]"
    using GetCurrentPowerState_frame(4) [OF assms(1)]
    by (simp add: SubmitPowerState_phases prep submit_put_calls)
  ultimately show ?thesis using ps by blast
qed

theorem SubmitPowerState_one_change_request_witness:
  "GetCurrentPowerState (remote ''Off'' (Inr ''Running'') (Inr ''Completed'')) (start blade1)
     = (Return None,
        snd (GetCurrentPowerState (remote ''Off'' (Inr ''Running'') (Inr ''Completed''))
               (start blade1)))
   \<and> P_ON \<noteq> State (snd (GetCurrentPowerState (remote ''Off'' (Inr ''Running'') (Inr ''Completed''))
               (start blade1)))
   \<and> P_ON \<in> {P_ON, P_OFF, P_UKNOWN}
   \<and> filter is_Call (trace
        (snd (SubmitPowerState (remote ''Off'' (Inr ''Running'') (Inr ''Completed'')) P_ON
               (start blade1))))
       = [Call PUT ''/rest/server-hardware/1/powerState''
            (Some \<lparr>PowerRequest.PowerState = ''On'', PowerControl = ''MomentaryPress''\<rparr>)]"
proof -
  let ?env = "remote ''Off'' (Inr ''Running'') (Inr ''Completed'')"
  have u: "ServerHardware.URI (Blade (start blade1)) \<noteq> []"
    by (simp add: sample_defs)
  have l: "GetServerHardware ?env (trace (start blade1))
      (ServerHardware.URI (Blade (start blade1)))
        = Inr (blade1\<lparr>ServerHardware.PowerState := ''Off''\<rparr>)"
    by (simp add: remote_def)
  have g: "GetCurrentPowerState ?env (start blade1)
      = (Return None, snd (GetCurrentPowerState ?env (start blade1)))"
    by (simp add: GetCurrentPowerState_found [OF u l])
  have st: "P_ON \<noteq> State (snd (GetCurrentPowerState ?env (start blade1)))"
    by (simp add: GetCurrentPowerState_found [OF u l] P_ON_def P_OFF_def)
  have mem: "P_ON \<in> {P_ON, P_OFF, P_UKNOWN}" by simp
  have b: "ServerHardware.URI (Blade (snd (GetCurrentPowerState ?env (start blade1))))
      = ''/rest/server-hardware/1''"
    by (simp add: GetCurrentPowerState_found [OF u l]) (simp add: blade1_def)
  have s0: "trace (start blade1) = []"
    by (simp add: sample_defs)
  show ?thesis
    using g st mem SubmitPowerState_one_change_request [OF g st mem]
    by (simp add: s0 b String_P_ON)
qed

text \<open>
  C4. Once the submission has reached the PUT (\<open>submit_prepare\<close> ends in \<open>G_Put\<close>): if the PUT
  fails in transport, or if it answers and decoding the answer fails, \<^verbatim>\<open>SubmitPowerState\<close>
  returns normally (it has no error result, and it does not panic) with the done flag
  \<^verbatim>\<open>TaskStatus\<close> set, and the last entry of the trace is the Error line for that failure.
\<close>

theorem SubmitPowerState_swallows_failures:
  assumes "submit_prepare env s m = (G_Put uri body, m4)"
  shows "(\<forall>err. RestAPICall env (trace m4) PUT uri (Some body) = Inl err \<longrightarrow>
            fst (SubmitPowerState env s m) = Return ()
          \<and> PowerTask.TaskStatus (snd (SubmitPowerState env s m)) = True
          \<and> trace (snd (SubmitPowerState env s m))
              = trace m4 @ [Call PUT uri (Some body),
                            Log Errorf ''Error with power state request: %s''])
     \<and> (\<forall>data err. RestAPICall env (trace m4) PUT uri (Some body) = Inr data
            \<and> fst (json_Unmarshal env data (CurrentTask m4)) = Some err \<longrightarrow>
            fst (SubmitPowerState env s m) = Return ()
          \<and> PowerTask.TaskStatus (snd (SubmitPowerState env s m)) = True
          \<and> trace (snd (SubmitPowerState env s m))
              = trace m4 @ [Call PUT uri (Some body), Log Debugf ''SubmitPowerState %s'',
                            Log Errorf ''Error with power state un-marshal: %s''])"
  by (auto simp: SubmitPowerState_phases assms submit_put_def Let_def logf_def emit_def
      split: prod.splits)

theorem SubmitPowerState_swallows_failures_witness:
  "fst (SubmitPowerState (remote ''Off'' (Inl (errors_New ''connection refused'')) (Inr ''Completed''))
          P_ON (start blade1)) = Return ()
   \<and> PowerTask.TaskStatus
       (snd (SubmitPowerState (remote ''Off'' (Inl (errors_New ''connection refused'')) (Inr ''Completed''))
          P_ON (start blade1))) = True
   \<and> fst (SubmitPowerState (remote ''Off'' (Inr ''{'') (Inr ''Completed''))
          P_ON (start blade1)) = Return ()
   \<and> PowerTask.TaskStatus
       (snd (SubmitPowerState (remote ''Off'' (Inr ''{'') (Inr ''Completed''))
          P_ON (start blade1))) = True"
proof -
  let ?e1 = "remote ''Off'' (Inl (errors_New ''connection refused'')) (Inr ''Completed'')"
  let ?e2 = "remote ''Off'' (Inr ''{'') (Inr ''Completed'')"
  let ?uri = "''/rest/server-hardware/1/powerState''"
  let ?body = "\<lparr>PowerRequest.PowerState = ''On'', PowerControl = ''MomentaryPress''\<rparr>"
  have c1: "RestAPICall ?e1 (trace (snd (submit_prepare ?e1 P_ON (start blade1)))) PUT ?uri
      (Some ?body) = Inl (errors_New ''connection refused'')"
    by (simp add: remote_def)
  have c2: "RestAPICall ?e2 (trace (snd (submit_prepare ?e2 P_ON (start blade1)))) PUT ?uri
      (Some ?body) = Inr ''{''
    \<and> fst (json_Unmarshal ?e2 ''{'' (CurrentTask (snd (submit_prepare ?e2 P_ON (start blade1)))))
      = Some (errors_New ''unexpected end of JSON input'')"
    by (simp add: remote_def decode_Task_def)
  from SubmitPowerState_swallows_failures [OF sample_prepare, THEN conjunct1, rule_format, OF c1]
    SubmitPowerState_swallows_failures [OF sample_prepare, THEN conjunct2, rule_format, OF c2]
  show ?thesis by simp
qed

section \<open>GetCurrentTaskStatus\<close>



section \<open>PowerExecutor\<close>

text \<open>
  Run without being overtaken, the two parts of the goroutine do what the sequential
  \<^verbatim>\<open>SubmitPowerState\<close> does.
\<close>

lemma goroutine_is_SubmitPowerState:
  "(go_step env s ^^ 2) (G_Start, m) =
     (case SubmitPowerState env s m of
        (Return u, m1) \<Rightarrow> (G_Done, m1)
      | (Panic p, m1) \<Rightarrow> (G_Panicked p, m1))"
proof -
  have g: "fst (submit_prepare env s m) \<noteq> G_Start"
    by (simp add: submit_prepare_def Let_def
        split: prod.splits result.splits option.splits sum.splits)
  obtain g1 m1 where p: "submit_prepare env s m = (g1, m1)"
    by (cases "submit_prepare env s m")
  with g have "g1 \<noteq> G_Start" by simp
  then show ?thesis
    by (cases g1) (simp_all add: numeral_2_eq_2 SubmitPowerState_phases p)
qed

lemma counts_GetCurrentPowerState:
  assumes "GetCurrentPowerState env m = (r, m1)"
  shows "sleeps m1 = sleeps m" and "polls m1 = polls m"
  using assms
  by (auto simp: GetCurrentPowerState_def Let_def Equal_P_OFF Equal_P_ON emit_def logf_def
      sleeps_def polls_def split: if_splits sum.splits)

lemma counts_submit_prepare:
  assumes "submit_prepare env s m = (g, m1)"
  shows "sleeps m1 = sleeps m" and "polls m1 = polls m"
proof -
  obtain r m0 where g: "GetCurrentPowerState env m = (r, m0)"
    by (cases "GetCurrentPowerState env m")
  note c = counts_GetCurrentPowerState [OF g]
  from assms g have "sleeps m1 = sleeps m0 \<and> polls m1 = polls m0"
    by (auto simp: submit_prepare_def Let_def emit_def logf_def sleeps_def polls_def
        split: result.splits option.splits if_splits sum.splits)
  with c show "sleeps m1 = sleeps m" and "polls m1 = polls m" by simp_all
qed

lemma counts_submit_put:
  "sleeps (submit_put env uri body m) = sleeps m" "polls (submit_put env uri body m) = polls m"
  by (simp_all add: submit_put_def Let_def emit_def logf_def sleeps_def polls_def
      split: sum.splits prod.splits option.splits)

lemma counts_go_step:
  assumes "go_step env s (g, m) = (g1, m1)"
  shows "sleeps m1 = sleeps m \<and> polls m1 = polls m"
  using assms
  by (cases g) (auto simp: counts_submit_put dest: counts_submit_prepare)

lemma counts_go_steps:
  "(go_step env s ^^ k) (g, m) = (g1, m1) \<Longrightarrow> sleeps m1 = sleeps m \<and> polls m1 = polls m"
proof (induction k arbitrary: g1 m1)
  case 0
  then show ?case by simp
next
  case (Suc k)
  obtain g2 m2 where mid: "(go_step env s ^^ k) (g, m) = (g2, m2)"
    by (cases "(go_step env s ^^ k) (g, m)")
  with Suc.prems have "go_step env s (g2, m2) = (g1, m1)" by simp
  then have "sleeps m1 = sleeps m2 \<and> polls m1 = polls m2" by (rule counts_go_step)
  with Suc.IH [OF mid] show ?case by simp
qed

lemma counts_yield:
  assumes "yield env s sched g m = (sched1, g1, m1)"
  shows "sleeps m1 = sleeps m" and "polls m1 = polls m"
  using assms
  by (auto simp: yield_def split: list.splits prod.splits dest: counts_go_steps)

lemma counts_GetCurrentTaskStatus:
  assumes "GetCurrentTaskStatus env m = (r, m1)"
  shows "sleeps m1 = sleeps m" and "polls m1 = Suc (polls m)"
  using assms
  by (auto simp: GetCurrentTaskStatus_def Let_def emit_def logf_def sleeps_def polls_def
      split: if_splits sum.splits prod.splits option.splits)

lemma counts_iteration:
  assumes "iteration env s sched g m = (r, sched1, g1, m1)"
  shows "r = None \<longrightarrow> sleeps m1 = Suc (sleeps m) \<and> polls m1 = Suc (polls m)"
    and "r \<noteq> None \<longrightarrow> sleeps m1 = sleeps m \<and> polls m1 \<le> Suc (polls m)"
proof -
  obtain sa ga ma where y1: "yield env s sched g m = (sa, ga, ma)"
    by (cases "yield env s sched g m")
  note a = counts_yield [OF y1]
  obtain rb mb where p: "GetCurrentTaskStatus env ma = (rb, mb)"
    by (cases "GetCurrentTaskStatus env ma")
  note b = counts_GetCurrentTaskStatus [OF p]
  obtain sc gc mc where y2: "yield env s sa ga mb = (sc, gc, mc)"
    by (cases "yield env s sa ga mb")
  note c = counts_yield [OF y2]
  from assms y1 p y2 a b c
  show "r = None \<longrightarrow> sleeps m1 = Suc (sleeps m) \<and> polls m1 = Suc (polls m)"
    by (auto simp: iteration_def Let_def emit_def logf_def sleeps_def polls_def
        split: option.splits if_splits)
  from assms y1 p y2 a b c
  show "r \<noteq> None \<longrightarrow> sleeps m1 = sleeps m \<and> polls m1 \<le> Suc (polls m)"
    by (auto simp: iteration_def Let_def emit_def logf_def sleeps_def polls_def
        split: option.splits if_splits)
qed

lemma iteration_exit:
  assumes "iteration env s sched g m = (Some e, sched1, g1, m1)"
  shows "e \<noteq> Returned None"
  using assms
  by (auto simp: iteration_def Let_def split: prod.splits option.splits if_splits)

lemma loop_crash:
  assumes "yield env s sched g m = (sched1, g1, m1)" and "crashed g1 = Some p"
  shows "PowerExecutor_loop env s sched g ct m = (Crashed p, ct, g1, m1)"
  by (subst PowerExecutor_loop.simps) (simp add: assms)

lemma loop_exit:
  assumes "yield env s sched g m = (sched1, g1, m1)" and "crashed g1 = None"
    and "PowerTask.TaskStatus m1 \<or> \<not> ct < Timeout m1"
  shows "PowerExecutor_loop env s sched g ct m =
     (Returned None, ct, g1,
      logf Infof ''Power Task Execution Completed''
        (if \<not> ct < Timeout m1 then logf Warnf ''Power %s state timed out for %s.'' m1 else m1))"
  using assms(3) by (subst PowerExecutor_loop.simps) (auto simp: assms(1,2) Let_def)

lemma loop_abort:
  assumes "yield env s sched g m = (sched1, g1, m1)" and "crashed g1 = None"
    and "\<not> PowerTask.TaskStatus m1" and "ct < Timeout m1"
    and "iteration env s sched1 g1 m1 = (Some e, sched2, g2, m2)"
  shows "PowerExecutor_loop env s sched g ct m = (e, ct, g2, m2)"
  by (subst PowerExecutor_loop.simps) (simp add: assms)

lemma loop_again:
  assumes "yield env s sched g m = (sched1, g1, m1)" and "crashed g1 = None"
    and "\<not> PowerTask.TaskStatus m1" and "ct < Timeout m1"
    and "iteration env s sched1 g1 m1 = (None, sched2, g2, m2)"
  shows "PowerExecutor_loop env s sched g ct m = PowerExecutor_loop env s sched2 g2 (ct + 1) m2"
  by (subst PowerExecutor_loop.simps) (simp add: assms)

lemma loop_bounds:
  "PowerExecutor_loop env s sched g ct m = (e, n, g', m') \<Longrightarrow>
     ct \<le> n \<and> (n = ct \<or> n \<le> Timeout m)
     \<and> sleeps m' = sleeps m + nat (n - ct)
     \<and> polls m' \<le> polls m + nat (n - ct) + 1
     \<and> (polls m' = polls m + nat (n - ct) \<or> n < Timeout m)
     \<and> (e = Returned None \<longrightarrow> PowerTask.TaskStatus m' \<or> Timeout m \<le> n)"
proof (induction env s sched g ct m arbitrary: e n g' m' rule: PowerExecutor_loop.induct)
  case (1 env s sched g ct m)
  obtain sched1 g1 m1 where y: "yield env s sched g m = (sched1, g1, m1)"
    by (cases "yield env s sched g m") auto
  note cy = counts_yield [OF y] and ty = Timeout_yield [OF y]
  show ?case
  proof (cases "crashed g1")
    case (Some p)
    from "1.prems" loop_crash [OF y Some, of ct] cy show ?thesis by auto
  next
    case None
    show ?thesis
    proof (cases "PowerTask.TaskStatus m1 \<or> \<not> ct < Timeout m1")
      case True
      from "1.prems" loop_exit [OF y None True] cy ty True show ?thesis
        by (auto simp: logf_def emit_def sleeps_def polls_def)
    next
      case False
      then have c: "\<not> PowerTask.TaskStatus m1" "ct < Timeout m1" by auto
      obtain r sched2 g2 m2 where i: "iteration env s sched1 g1 m1 = (r, sched2, g2, m2)"
        by (cases "iteration env s sched1 g1 m1") auto
      note ci = counts_iteration [OF i] and ti = Timeout_iteration [OF i]
      show ?thesis
      proof (cases r)
        case (Some e1)
        from "1.prems" loop_abort [OF y None c i [unfolded Some]] ci cy c ty Some
          iteration_exit [OF i [unfolded Some]]
        show ?thesis by auto
      next
        case None2: None
        have step: "PowerExecutor_loop env s sched2 g2 (ct + 1) m2 = (e, n, g', m')"
          using "1.prems" loop_again [OF y None c i [unfolded None2]] by simp
        have "\<not> PowerTask.TaskStatus m1 \<and> ct < Timeout m1" using c by simp
        note ih = "1.IH" [OF y [symmetric] refl None this i [unfolded None2, symmetric] refl refl refl step]
        from ih ci cy ty ti None2 c show ?thesis by auto
      qed
    qed
  qed
qed

text \<open>
  A run on the sample system: the blade is off, On is requested, two polls are allowed.
  The goroutine is scheduled during the first sleep; the second poll finds the task
  completed.
\<close>

lemma ToUpper_Completed: "strings_ToUpper ''Completed'' = ''COMPLETED''"
  by code_simp

lemma ToUpper_Running: "strings_ToUpper ''Running'' = ''RUNNING''"
  by code_simp

lemma P_distinct:
  "P_ON \<noteq> P_OFF" "P_OFF \<noteq> P_ON" "P_ON \<noteq> P_UKNOWN" "P_UKNOWN \<noteq> P_ON"
  "P_OFF \<noteq> P_UKNOWN" "P_UKNOWN \<noteq> P_OFF"
  by (simp_all add: P_ON_def P_OFF_def P_UKNOWN_def)

lemmas run_defs = yield_def iteration_def GetCurrentTaskStatus_def submit_prepare_def
  submit_put_def GetCurrentPowerState_def Equal_P_OFF Equal_P_ON String_P_ON
  PowerControl_String_MOMPRESS T_COMPLETED_Equal_def ToUpper_Completed ToUpper_Running
  Let_def logf_def emit_def sample_defs ResetTask_def P_distinct
  numeral_2_eq_2

lemma late_completion:
  "PowerExecutor (remote ''Off'' (Inr ''Running'') (Inr ''Completed'')) P_ON [0, 0, 0, 2] impatient
    = (Returned None, 2, G_Done,
       \<lparr>Blade = blade1, State = P_OFF, TaskStatus = True,
        CurrentTask = empty_Task\<lparr>Task.URI := ''/rest/tasks/7'', TaskState := ''Completed''\<rparr>,
        Timeout = 2, WaitTime = 10,
        trace =
       [Log Debugf ''Working on getting current blade task status'',
        Log Debugf ''Unable to get current task, no URI found'',
        Log Infof ''Working on power state.'', Sleep 10000000000,
        Lookup ''/rest/server-hardware/1'',
        Log Debugf ''GetCurrentPowerState() blade -> %+v'',
        Log Infof ''Powering %s server %s for %s.'',
        Log Debugf (''REST : %s '' @ [CHR 0x0A] @ '' %+v'' @ [CHR 0x0A]), Log Debugf ''pt -> %+v'',
        Call PUT ''/rest/server-hardware/1/powerState''
         (Some \<lparr>PowerRequest.PowerState = ''On'', PowerControl = ''MomentaryPress''\<rparr>),
        Log Debugf ''SubmitPowerState %s'',
        Log Debugf ''Working on getting current blade task status'',
        Call GET ''/rest/tasks/7'' None, Log Debugf ''data: %s'',
        Log Debugf ''Waiting to set power state %s for blade %s, %s'',
        Log Infof ''Working on power state,%d%%, %s.'', Sleep 10000000000,
        Log Warnf ''Power %s state timed out for %s.'',
        Log Infof ''Power Task Execution Completed'']\<rparr>)"
  unfolding PowerExecutor_def impatient_def
  apply (subst PowerExecutor_loop.simps, simp add: run_defs)
  apply (subst PowerExecutor_loop.simps, simp add: run_defs)
  apply (subst PowerExecutor_loop.simps, simp add: run_defs)
  done

text \<open>
  Another run: the blade is off and Off is requested, one poll is allowed, and the
  goroutine is scheduled during the only sleep.
\<close>

lemma late_observation:
  "PowerExecutor (remote ''Off'' (Inr ''Running'') (Inr ''Running'')) P_OFF [0, 0, 0, 1] hurried
    = (Returned None, 1, G_Done,
       \<lparr>Blade = blade1, State = P_OFF, TaskStatus = True, CurrentTask = empty_Task,
        Timeout = 1, WaitTime = 10,
        trace =
       [Log Debugf ''Working on getting current blade task status'',
        Log Debugf ''Unable to get current task, no URI found'',
        Log Infof ''Working on power state.'', Sleep 10000000000,
        Lookup ''/rest/server-hardware/1'',
        Log Debugf ''GetCurrentPowerState() blade -> %+v'',
        Log Infof ''Desired Power State already set -> %s'',
        Log Warnf ''Power %s state timed out for %s.'',
        Log Infof ''Power Task Execution Completed'']\<rparr>)"
  unfolding PowerExecutor_def hurried_def
  apply (subst PowerExecutor_loop.simps, simp add: run_defs)
  apply (subst PowerExecutor_loop.simps, simp add: run_defs)
  done

text \<open>
  C2, at inputs where it fails. In the first run above the second and last allowed poll
  finds the task completed, so the loop ends with the done flag \<^verbatim>\<open>TaskStatus\<close> true and
  with the counter equal to \<^verbatim>\<open>Timeout\<close>. In the second run the goroutine finds the requested
  state already there and sets the done flag during the last sleep. The test on line 194
  looks at the counter only: both times the executor returns without error and has logged
  the warning \<^verbatim>\<open>timed out\<close> although the done flag is true.
\<close>

theorem PowerExecutor_warns_although_done:
  "fst (PowerExecutor (remote ''Off'' (Inr ''Running'') (Inr ''Completed'')) P_ON [0, 0, 0, 2]
          impatient) = Returned None
   \<and> fst (snd (PowerExecutor (remote ''Off'' (Inr ''Running'') (Inr ''Completed'')) P_ON
          [0, 0, 0, 2] impatient)) = Timeout impatient
   \<and> PowerTask.TaskStatus (snd (snd (snd (PowerExecutor
          (remote ''Off'' (Inr ''Running'') (Inr ''Completed'')) P_ON [0, 0, 0, 2] impatient))))
       = True
   \<and> TaskState (CurrentTask (snd (snd (snd (PowerExecutor
          (remote ''Off'' (Inr ''Running'') (Inr ''Completed'')) P_ON [0, 0, 0, 2] impatient)))))
       = ''Completed''
   \<and> Log Warnf ''Power %s state timed out for %s.''
       \<in> set (trace (snd (snd (snd (PowerExecutor
          (remote ''Off'' (Inr ''Running'') (Inr ''Completed'')) P_ON [0, 0, 0, 2] impatient)))))
   \<and> fst (PowerExecutor (remote ''Off'' (Inr ''Running'') (Inr ''Running'')) P_OFF [0, 0, 0, 1]
          hurried) = Returned None
   \<and> fst (snd (PowerExecutor (remote ''Off'' (Inr ''Running'') (Inr ''Running'')) P_OFF
          [0, 0, 0, 1] hurried)) = Timeout hurried
   \<and> PowerTask.TaskStatus (snd (snd (snd (PowerExecutor
          (remote ''Off'' (Inr ''Running'') (Inr ''Running'')) P_OFF [0, 0, 0, 1] hurried))))
       = True
   \<and> Log Warnf ''Power %s state timed out for %s.''
       \<in> set (trace (snd (snd (snd (PowerExecutor
          (remote ''Off'' (Inr ''Running'') (Inr ''Running'')) P_OFF [0, 0, 0, 1] hurried)))))"
  unfolding late_completion late_observation
  by (simp add: impatient_def hurried_def sample_defs)

text \<open>
  C3. For \<^verbatim>\<open>Timeout\<close> at least 0, under every schedule of the goroutine and every behaviour
  of the remote system, \<^verbatim>\<open>PowerExecutor\<close> ends (the loop is a total function, by the
  termination proof above) with a counter between 0 and \<^verbatim>\<open>Timeout\<close>. The counter is the
  number of completed passes, each of which slept once; at most one more pass was begun
  (and left by an error or a crash), and at most \<^verbatim>\<open>Timeout\<close> passes were begun in all. When
  the loop is left by its condition, the done flag is true or the counter has reached
  \<^verbatim>\<open>Timeout\<close>.
\<close>

theorem PowerExecutor_iterations_bounded:
  assumes "0 \<le> Timeout m" and "PowerExecutor env s sched m = (e, currenttime, g, m')"
  shows "0 \<le> currenttime \<and> currenttime \<le> Timeout m
     \<and> sleeps m' = sleeps m + nat currenttime
     \<and> polls m' \<le> polls m + nat currenttime + 1
     \<and> polls m' \<le> polls m + nat (Timeout m)
     \<and> (e = Returned None \<longrightarrow> PowerTask.TaskStatus m' \<or> currenttime = Timeout m)"
proof -
  have r: "Timeout (ResetTask m) = Timeout m" "sleeps (ResetTask m) = sleeps m"
    "polls (ResetTask m) = polls m"
    by (simp_all add: ResetTask_def sleeps_def polls_def)
  from assms(2) have "PowerExecutor_loop env s sched G_Start 0 (ResetTask m) = (e, currenttime, g, m')"
    by (simp add: PowerExecutor_def)
  from loop_bounds [OF this] assms(1) show ?thesis
    unfolding r by auto
qed

theorem PowerExecutor_iterations_bounded_witness:
  "0 \<le> Timeout impatient
   \<and> fst (snd (PowerExecutor (remote ''Off'' (Inr ''Running'') (Inr ''Completed'')) P_ON
          [0, 0, 0, 2] impatient)) = 2
   \<and> Timeout impatient = 2
   \<and> sleeps (snd (snd (snd (PowerExecutor
          (remote ''Off'' (Inr ''Running'') (Inr ''Completed'')) P_ON [0, 0, 0, 2] impatient))))
       = 2
   \<and> polls (snd (snd (snd (PowerExecutor
          (remote ''Off'' (Inr ''Running'') (Inr ''Completed'')) P_ON [0, 0, 0, 2] impatient))))
       \<le> 2"
proof -
  have h: "0 \<le> Timeout impatient" and t: "Timeout impatient = 2"
    and z: "sleeps impatient = 0" "polls impatient = 0"
    by (simp_all add: impatient_def sample_defs sleeps_def polls_def)
  from PowerExecutor_iterations_bounded [OF h late_completion] h
  show ?thesis by (simp add: late_completion t z)
qed

end
